theory Spec2Isabelle
  imports Main "HOL-Library.Word"
begin

section \<open>JavaScript strings\<close>

text \<open>
  A JavaScript string is a sequence of UTF-16 code units. \<open>js\<close> writes a literal:
  every character of an ASCII literal is one code unit.
\<close>

type_synonym jschar = "16 word"
type_synonym jsstring = "jschar list"

definition js :: "string \<Rightarrow> jsstring" where
  "js s = map of_char s"

text \<open>
  \<open>value: string | undefined | null\<close>: the argument of \<open>detectRegexFormat\<close> and
  \<open>parseRegexValue\<close>.
\<close>

datatype maybe_string = Undefined | Null | Str jsstring

text \<open>\<open>!value\<close>: undefined, null and the empty string are falsy.\<close>

fun falsy :: "maybe_string \<Rightarrow> bool" where
  "falsy Undefined = True"
| "falsy Null = True"
| "falsy (Str s) = (s = [])"

text \<open>
  \<open>String.prototype.trim\<close> strips WhiteSpace and LineTerminator code points from both
  ends (ECMA-262, 12.2 and 12.3): TAB, LF, VT, FF, CR, SPACE, NBSP, U+1680,
  U+2000 to U+200A, U+2028, U+2029, U+202F, U+205F, U+3000 and U+FEFF. All of them are
  single code units.
\<close>

definition isWhiteSpace :: "jschar \<Rightarrow> bool" where
  "isWhiteSpace c \<longleftrightarrow>
     c = 0x09 \<or> c = 0x0A \<or> c = 0x0B \<or> c = 0x0C \<or> c = 0x0D \<or> c = 0x20 \<or> c = 0xA0 \<or>
     c = 0x1680 \<or> (0x2000 \<le> c \<and> c \<le> 0x200A) \<or> c = 0x2028 \<or> c = 0x2029 \<or>
     c = 0x202F \<or> c = 0x205F \<or> c = 0x3000 \<or> c = 0xFEFF"

definition trimStart :: "jsstring \<Rightarrow> jsstring" where
  "trimStart s = dropWhile isWhiteSpace s"

definition trimEnd :: "jsstring \<Rightarrow> jsstring" where
  "trimEnd s = rev (dropWhile isWhiteSpace (rev s))"

definition trim :: "jsstring \<Rightarrow> jsstring" where
  "trim s = trimEnd (trimStart s)"

text \<open>\<open>s.startsWith(c)\<close> and \<open>s.endsWith(c)\<close> for a one-unit string \<open>c\<close>.\<close>

fun startsWith :: "jsstring \<Rightarrow> jschar \<Rightarrow> bool" where
  "startsWith [] c = False"
| "startsWith (x # xs) c = (x = c)"

definition endsWith :: "jsstring \<Rightarrow> jschar \<Rightarrow> bool" where
  "endsWith s c = startsWith (rev s) c"

text \<open>
  \<open>Number.prototype.toString\<close> on a non-negative integer (the \<open>${i + 1}\<close> of the
  template strings): its decimal digits.
\<close>

definition digit_unit :: "nat \<Rightarrow> jschar" where
  "digit_unit d = of_nat (48 + d)"

fun Number_toString :: "nat \<Rightarrow> jsstring" where
  "Number_toString n =
     (if n < 10 then [digit_unit n]
      else Number_toString (n div 10) @ [digit_unit (n mod 10)])"

declare Number_toString.simps [simp del]

section \<open>Errors\<close>

text \<open>
  The exceptions the source can meet: \<open>JSON.parse\<close> and \<open>new RegExp\<close> throw
  SyntaxError; a method call on \<open>undefined\<close> throws TypeError. A computation that may
  throw has type \<open>js_error + 'a\<close>, and a \<open>try\<close>/\<open>catch\<close> is a case distinction on it.
\<close>

datatype js_error = SyntaxError | TypeError

section \<open>JSON.parse\<close>

text \<open>
  JSON values as \<open>JSON.parse\<close> builds them. A number keeps its lexeme (the double it
  denotes plays no role here, only that it is not a string); an object keeps its members
  in source order.
\<close>

datatype json =
    JNull
  | JBool bool
  | JNumber jsstring
  | JString jsstring
  | JArray "json list"
  | JObject "(jsstring \<times> json) list"

text \<open>\<open>Array.isArray(parsed)\<close> and \<open>typeof item === 'string'\<close>.\<close>

fun isArray :: "json \<Rightarrow> bool" where
  "isArray (JArray xs) = True"
| "isArray v = False"

fun isString :: "json \<Rightarrow> bool" where
  "isString (JString s) = True"
| "isString v = False"

fun elements :: "json \<Rightarrow> json list" where
  "elements (JArray xs) = xs"
| "elements v = []"

fun stringValue :: "json \<Rightarrow> jsstring" where
  "stringValue (JString s) = s"
| "stringValue v = []"

subsection \<open>The JSON lexical grammar (ECMA-262, 25.5.1; ECMA-404)\<close>

datatype token =
    TLBracket | TRBracket | TLBrace | TRBrace | TComma | TColon
  | TString jsstring | TNumber jsstring | TTrue | TFalse | TNull

text \<open>JSONWhiteSpace: TAB, LF, CR, SPACE only.\<close>

definition isJSONWhiteSpace :: "jschar \<Rightarrow> bool" where
  "isJSONWhiteSpace c \<longleftrightarrow> c = 0x09 \<or> c = 0x0A \<or> c = 0x0D \<or> c = 0x20"

definition isDigit :: "jschar \<Rightarrow> bool" where
  "isDigit c \<longleftrightarrow> 0x30 \<le> c \<and> c \<le> 0x39"

text \<open>The value of a hexadecimal digit, upper or lower case.\<close>

definition hexValue :: "jschar \<Rightarrow> nat option" where
  "hexValue c =
     (if 0x30 \<le> c \<and> c \<le> 0x39 then Some (unat c - 48)
      else if 0x41 \<le> c \<and> c \<le> 0x46 then Some (unat c - 55)
      else if 0x61 \<le> c \<and> c \<le> 0x66 then Some (unat c - 87)
      else None)"

text \<open>\<open>\<^verbatim>\<open>\uXXXX\<close>\<close>: four hexadecimal digits give one code unit.\<close>

definition hex4 :: "jschar \<Rightarrow> jschar \<Rightarrow> jschar \<Rightarrow> jschar \<Rightarrow> jschar option" where
  "hex4 a b c d =
     (case (hexValue a, hexValue b, hexValue c, hexValue d) of
        (Some x, Some y, Some z, Some w) \<Rightarrow> Some (of_nat (x * 4096 + y * 256 + z * 16 + w))
      | _ \<Rightarrow> None)"

text \<open>JSONEscapeCharacter: one of \<open>" / \ b f n r t\<close>.\<close>

definition unescape :: "jschar \<Rightarrow> jschar option" where
  "unescape e =
     (if e = 0x22 then Some 0x22
      else if e = 0x2F then Some 0x2F
      else if e = 0x5C then Some 0x5C
      else if e = 0x62 then Some 0x08
      else if e = 0x66 then Some 0x0C
      else if e = 0x6E then Some 0x0A
      else if e = 0x72 then Some 0x0D
      else if e = 0x74 then Some 0x09
      else None)"

definition consFst :: "'a \<Rightarrow> ('a list \<times> 'b) option \<Rightarrow> ('a list \<times> 'b) option" where
  "consFst x r = map_option (\<lambda>(s, rest). (x # s, rest)) r"

text \<open>
  The characters of a JSONString after its opening quote: the decoded string and the text
  after the closing quote. A raw character is any code unit from U+0020 on other than
  \<open>"\<close> and \<open>\\<close>.
\<close>

fun lexString :: "jsstring \<Rightarrow> (jsstring \<times> jsstring) option" where
  "lexString [] = None"
| "lexString (c # cs) =
     (if c = 0x22 then Some ([], cs)
      else if c = 0x5C then
        (case cs of
           [] \<Rightarrow> None
         | e # es \<Rightarrow>
             if e = 0x75 then
               (case es of
                  a # b # c # d # rest \<Rightarrow>
                    (case hex4 a b c d of
                       None \<Rightarrow> None
                     | Some u \<Rightarrow> consFst u (lexString rest))
                | _ \<Rightarrow> None)
             else
               (case unescape e of
                  None \<Rightarrow> None
                | Some u \<Rightarrow> consFst u (lexString es)))
      else if c < 0x20 then None
      else consFst c (lexString cs))"

text \<open>
  JSONNumber: \<open>-? (0 | [1-9][0-9]*) (. [0-9]+)? ([eE] [+-]? [0-9]+)?\<close>. Each part
  returns the text it matched and the rest.
\<close>

definition lexDigits :: "jsstring \<Rightarrow> (jsstring \<times> jsstring) option" where
  "lexDigits cs =
     (if takeWhile isDigit cs = [] then None
      else Some (takeWhile isDigit cs, dropWhile isDigit cs))"

definition lexInt :: "jsstring \<Rightarrow> (jsstring \<times> jsstring) option" where
  "lexInt cs =
     (case cs of
        [] \<Rightarrow> None
      | c # rest \<Rightarrow>
          if c = 0x30 then Some ([c], rest)
          else if isDigit c then Some (c # takeWhile isDigit rest, dropWhile isDigit rest)
          else None)"

definition lexFraction :: "jsstring \<Rightarrow> (jsstring \<times> jsstring) option" where
  "lexFraction cs =
     (case cs of
        [] \<Rightarrow> Some ([], cs)
      | c # rest \<Rightarrow>
          if c = 0x2E then consFst c (lexDigits rest) else Some ([], cs))"

definition lexExponent :: "jsstring \<Rightarrow> (jsstring \<times> jsstring) option" where
  "lexExponent cs =
     (case cs of
        [] \<Rightarrow> Some ([], cs)
      | c # rest \<Rightarrow>
          if c = 0x65 \<or> c = 0x45 then
            (case rest of
               [] \<Rightarrow> None
             | s # rest' \<Rightarrow>
                 if s = 0x2B \<or> s = 0x2D then consFst c (consFst s (lexDigits rest'))
                 else consFst c (lexDigits rest))
          else Some ([], cs))"

definition lexUnsigned :: "jsstring \<Rightarrow> (jsstring \<times> jsstring) option" where
  "lexUnsigned cs =
     (case lexInt cs of
        None \<Rightarrow> None
      | Some (i, r1) \<Rightarrow>
          (case lexFraction r1 of
             None \<Rightarrow> None
           | Some (f, r2) \<Rightarrow>
               (case lexExponent r2 of
                  None \<Rightarrow> None
                | Some (e, r3) \<Rightarrow> Some (i @ f @ e, r3))))"

definition lexNumber :: "jsstring \<Rightarrow> (jsstring \<times> jsstring) option" where
  "lexNumber cs =
     (case cs of
        [] \<Rightarrow> None
      | c # rest \<Rightarrow> if c = 0x2D then consFst c (lexUnsigned rest) else lexUnsigned cs)"

definition consTok :: "token \<Rightarrow> token list option \<Rightarrow> token list option" where
  "consTok t r = map_option (Cons t) r"

text \<open>
  The token sequence of a JSON text, or \<open>None\<close> where no token matches. The rest that
  \<open>lexString\<close> and \<open>lexNumber\<close> return is shorter than their input, which is why the
  recursion ends.
\<close>

function lex :: "jsstring \<Rightarrow> token list option" where
  "lex [] = Some []"
| "lex (c # cs) =
     (if isJSONWhiteSpace c then lex cs
      else if c = 0x5B then consTok TLBracket (lex cs)
      else if c = 0x5D then consTok TRBracket (lex cs)
      else if c = 0x7B then consTok TLBrace (lex cs)
      else if c = 0x7D then consTok TRBrace (lex cs)
      else if c = 0x2C then consTok TComma (lex cs)
      else if c = 0x3A then consTok TColon (lex cs)
      else if c = 0x22 then
        (case lexString cs of
           None \<Rightarrow> None
         | Some (s, rest) \<Rightarrow> consTok (TString s) (lex rest))
      else if c = 0x2D \<or> isDigit c then
        (case lexNumber (c # cs) of
           None \<Rightarrow> None
         | Some (n, rest) \<Rightarrow> consTok (TNumber n) (lex rest))
      else if take 4 (c # cs) = js ''true'' then consTok TTrue (lex (drop 3 cs))
      else if take 5 (c # cs) = js ''false'' then consTok TFalse (lex (drop 4 cs))
      else if take 4 (c # cs) = js ''null'' then consTok TNull (lex (drop 3 cs))
      else None)"
  by pat_completeness auto
termination
proof (relation "measure length")
  have str: "length r \<le> length cs" if "lexString cs = Some (s, r)" for cs s r
    using that
  proof (induction cs arbitrary: s r rule: lexString.induct)
    case 1
    then show ?case by simp
  next
    case (2 c cs)
    then show ?case
      by (fastforce simp: consFst_def split: if_splits list.splits option.splits)
  qed
  have digs: "length r \<le> length cs" if "lexDigits cs = Some (s, r)" for cs s r
    using that length_dropWhile_le [of isDigit cs]
    by (auto simp: lexDigits_def split: if_splits)
  have int: "length r < length cs" if "lexInt cs = Some (s, r)" for cs s r
    using that length_dropWhile_le [of isDigit "tl cs"]
    by (auto simp: lexInt_def split: if_splits list.splits)
  have frac: "length r \<le> length cs" if "lexFraction cs = Some (s, r)" for cs s r
    using that digs
    by (fastforce simp: lexFraction_def consFst_def split: if_splits list.splits)
  have expo: "length r \<le> length cs" if "lexExponent cs = Some (s, r)" for cs s r
    using that digs
    by (fastforce simp: lexExponent_def consFst_def split: if_splits list.splits)
  have uns: "length r < length cs" if "lexUnsigned cs = Some (s, r)" for cs s r
  proof -
    from that obtain i r1 f r2 e where
      "lexInt cs = Some (i, r1)" "lexFraction r1 = Some (f, r2)" "lexExponent r2 = Some (e, r)"
      by (auto simp: lexUnsigned_def split: option.splits)
    with int frac expo have "length r1 < length cs" "length r2 \<le> length r1" "length r \<le> length r2"
      by blast+
    then show ?thesis by simp
  qed
  have num: "length r < length cs" if "lexNumber cs = Some (s, r)" for cs s r
    using that uns
    by (fastforce simp: lexNumber_def consFst_def split: if_splits list.splits)
  show "wf (measure length)" by simp
  show "(rest, c # cs) \<in> measure length"
    if "lexString cs = Some x2" "(s, rest) = x2" for c cs x2 s rest
    using that str [of cs s rest] by simp
  show "(rest, c # cs) \<in> measure length"
    if "lexNumber (c # cs) = Some x2" "(n, rest) = x2" for c cs x2 n rest
    using that num [of "c # cs" n rest] by simp
qed simp_all

declare lex.simps [simp del]

subsection \<open>The JSON syntactic grammar\<close>

text \<open>
  The parser reads the tokens from left to right with a stack of the open arrays and
  objects. A frame holds the elements (or members) read so far, latest first; \<open>FMember\<close>
  is an object whose current key waits for its value. \<open>expect\<close> says what may come next.
\<close>

datatype frame =
    FArray "json list"
  | FObject "(jsstring \<times> json) list"
  | FMember "(jsstring \<times> json) list" jsstring

datatype expect =
    Value
  | ValueOrClose
  | KeyOrClose
  | Key
  | Colon jsstring
  | Done json

fun startValue :: "frame list \<Rightarrow> token \<Rightarrow> (expect \<times> frame list) option" where
  "startValue st TLBracket = Some (ValueOrClose, FArray [] # st)"
| "startValue st TLBrace = Some (KeyOrClose, FObject [] # st)"
| "startValue st (TString s) = Some (Done (JString s), st)"
| "startValue st (TNumber n) = Some (Done (JNumber n), st)"
| "startValue st TTrue = Some (Done (JBool True), st)"
| "startValue st TFalse = Some (Done (JBool False), st)"
| "startValue st TNull = Some (Done JNull, st)"
| "startValue st t = None"

fun step :: "expect \<Rightarrow> frame list \<Rightarrow> token \<Rightarrow> (expect \<times> frame list) option" where
  "step Value st t = startValue st t"
| "step ValueOrClose (FArray acc # st) TRBracket = Some (Done (JArray (rev acc)), st)"
| "step ValueOrClose st t = startValue st t"
| "step KeyOrClose (FObject mem # st) TRBrace = Some (Done (JObject (rev mem)), st)"
| "step KeyOrClose st (TString k) = Some (Colon k, st)"
| "step Key st (TString k) = Some (Colon k, st)"
| "step (Colon k) (FObject mem # st) TColon = Some (Value, FMember mem k # st)"
| "step (Done v) (FArray acc # st) TComma = Some (Value, FArray (v # acc) # st)"
| "step (Done v) (FArray acc # st) TRBracket = Some (Done (JArray (rev (v # acc))), st)"
| "step (Done v) (FMember mem k # st) TComma = Some (Key, FObject ((k, v) # mem) # st)"
| "step (Done v) (FMember mem k # st) TRBrace =
     Some (Done (JObject (rev ((k, v) # mem))), st)"
| "step e st t = None"

fun parseTokens :: "expect \<Rightarrow> frame list \<Rightarrow> token list \<Rightarrow> json option" where
  "parseTokens e st [] = (case (e, st) of (Done v, []) \<Rightarrow> Some v | _ \<Rightarrow> None)"
| "parseTokens e st (t # ts) =
     (case step e st t of
        None \<Rightarrow> None
      | Some (e', st') \<Rightarrow> parseTokens e' st' ts)"

text \<open>
  \<open>JSON.parse(text)\<close>: the value of the text, or a SyntaxError where the text is not
  one JSON value.
\<close>

definition JSON_parse :: "jsstring \<Rightarrow> js_error + json" where
  "JSON_parse text =
     (case lex text of
        None \<Rightarrow> Inl SyntaxError
      | Some ts \<Rightarrow>
          (case parseTokens Value [] ts of
             None \<Rightarrow> Inl SyntaxError
           | Some v \<Rightarrow> Inr v))"

section \<open>JSON.stringify on an array of strings\<close>

text \<open>
  QuoteJSONString (ECMA-262, 25.5.2.3) walks the code points of the string: a surrogate
  pair is one code point and is copied; a lone surrogate and a control character without
  a short escape become \<open>\<^verbatim>\<open>\uXXXX\<close>\<close> with lower-case digits.
\<close>

definition isLeadSurrogate :: "jschar \<Rightarrow> bool" where
  "isLeadSurrogate c \<longleftrightarrow> 0xD800 \<le> c \<and> c \<le> 0xDBFF"

definition isTrailSurrogate :: "jschar \<Rightarrow> bool" where
  "isTrailSurrogate c \<longleftrightarrow> 0xDC00 \<le> c \<and> c \<le> 0xDFFF"

definition hexDigit :: "nat \<Rightarrow> jschar" where
  "hexDigit d = (if d < 10 then of_nat (48 + d) else of_nat (87 + d))"

definition UnicodeEscape :: "jschar \<Rightarrow> jsstring" where
  "UnicodeEscape c =
     [0x5C, 0x75, hexDigit (unat c div 4096), hexDigit (unat c div 256 mod 16),
      hexDigit (unat c div 16 mod 16), hexDigit (unat c mod 16)]"

definition quoteUnit :: "jschar \<Rightarrow> jsstring" where
  "quoteUnit c =
     (if c = 0x08 then [0x5C, 0x62]
      else if c = 0x09 then [0x5C, 0x74]
      else if c = 0x0A then [0x5C, 0x6E]
      else if c = 0x0C then [0x5C, 0x66]
      else if c = 0x0D then [0x5C, 0x72]
      else if c = 0x22 then [0x5C, 0x22]
      else if c = 0x5C then [0x5C, 0x5C]
      else if c < 0x20 then UnicodeEscape c
      else [c])"

fun quoteUnits :: "jsstring \<Rightarrow> jsstring" where
  "quoteUnits [] = []"
| "quoteUnits (c # cs) =
     (if isLeadSurrogate c then
        (case cs of
           [] \<Rightarrow> UnicodeEscape c
         | d # ds \<Rightarrow>
             if isTrailSurrogate d then c # d # quoteUnits ds
             else UnicodeEscape c @ quoteUnits cs)
      else if isTrailSurrogate c then UnicodeEscape c @ quoteUnits cs
      else quoteUnit c @ quoteUnits cs)"

definition QuoteJSONString :: "jsstring \<Rightarrow> jsstring" where
  "QuoteJSONString s = 0x22 # quoteUnits s @ [0x22]"

fun joinComma :: "jsstring list \<Rightarrow> jsstring" where
  "joinComma [] = []"
| "joinComma [x] = x"
| "joinComma (x # y # ys) = x @ 0x2C # joinComma (y # ys)"

text \<open>\<open>JSON.stringify(patterns)\<close> for \<open>patterns: string[]\<close>, without indentation.\<close>

definition JSON_stringify :: "jsstring list \<Rightarrow> jsstring" where
  "JSON_stringify xs = 0x5B # joinComma (map QuoteJSONString xs) @ [0x5D]"

section \<open>The regular-expression engine of the host\<close>

text \<open>
  \<open>new RegExp(pattern)\<close> belongs to the host, not to the repository. Every function that
  compiles a pattern takes the host's acceptance predicate \<open>rx\<close> as its first argument:
  \<open>rx p\<close> holds when \<open>new RegExp(p)\<close> returns, and the constructor throws a
  SyntaxError otherwise.
\<close>

definition new_RegExp :: "(jsstring \<Rightarrow> bool) \<Rightarrow> jsstring \<Rightarrow> js_error + unit" where
  "new_RegExp rx pattern = (if rx pattern then Inr () else Inl SyntaxError)"

text \<open>
  For running the functions on concrete patterns, \<open>RegExp_fragment\<close> checks the syntax
  of a fragment of the ECMAScript pattern language (ECMA-262, 22.2.1 with Annex B.1.2, no
  flags): literal characters, \<open>.\<close>, \<open>^\<close>, \<open>$\<close>, \<open>|\<close>, capturing groups, backslash
  escapes outside classes, character classes with ranges, and the quantifiers \<open>*\<close>,
  \<open>+\<close>, \<open>?\<close> with their lazy forms. It rejects an unbalanced parenthesis, a quantifier
  with nothing to repeat, an unterminated class, a range out of order and a trailing
  backslash. Patterns outside the fragment (a brace, a group starting with \<open>(?\<close>, a
  backslash inside a class) are rejected too, so it accepts no more than the host does.
  The first argument is the number of open groups, the second whether the last term can
  take a quantifier.
\<close>

fun rxScan :: "nat \<Rightarrow> bool \<Rightarrow> jsstring \<Rightarrow> bool"
  and rxClass :: "nat \<Rightarrow> jsstring \<Rightarrow> bool" where
  "rxScan d q [] = (d = 0)"
| "rxScan d q (c # cs) =
     (if c = 0x28 then
        (case cs of
           [] \<Rightarrow> False
         | x # xs \<Rightarrow> if x = 0x3F then False else rxScan (Suc d) False cs)
      else if c = 0x29 then 0 < d \<and> rxScan (d - 1) True cs
      else if c = 0x7C \<or> c = 0x5E \<or> c = 0x24 then rxScan d False cs
      else if c = 0x2A \<or> c = 0x2B \<or> c = 0x3F then
        q \<and> (case cs of
               [] \<Rightarrow> rxScan d False []
             | x # xs \<Rightarrow> if x = 0x3F then rxScan d False xs else rxScan d False cs)
      else if c = 0x5C then
        (case cs of
           [] \<Rightarrow> False
         | e # es \<Rightarrow> rxScan d (e \<noteq> 0x62 \<and> e \<noteq> 0x42) es)
      else if c = 0x7B then False
      else if c = 0x5B then
        (case cs of
           [] \<Rightarrow> False
         | x # xs \<Rightarrow> if x = 0x5E then rxClass d xs else rxClass d cs)
      else rxScan d True cs)"
| "rxClass d [] = False"
| "rxClass d (a # cs) =
     (if a = 0x5D then rxScan d True cs
      else if a = 0x5C then False
      else
        (case cs of
           m # b # rest \<Rightarrow>
             if m = 0x2D \<and> b \<noteq> 0x5D then b \<noteq> 0x5C \<and> a \<le> b \<and> rxClass d rest
             else rxClass d cs
         | _ \<Rightarrow> rxClass d cs))"

definition RegExp_fragment :: "jsstring \<Rightarrow> bool" where
  "RegExp_fragment pattern = rxScan 0 False pattern"

section \<open>The format model: src/lib/env-utils.ts\<close>

datatype RegexFormat = string_format | array_format | empty_format

record ParsedRegexValue =
  format :: RegexFormat
  array :: "jsstring list"
  raw :: jsstring
  isValid :: bool
  error :: "jsstring option"

text \<open>\<open>value.trim()\<close>: a TypeError when \<open>value\<close> is undefined or null.\<close>

fun trimOf :: "maybe_string \<Rightarrow> js_error + jsstring" where
  "trimOf (Str s) = Inr (trim s)"
| "trimOf v = Inl TypeError"

text \<open>
  \<open>detectRegexFormat\<close>. The \<open>catch\<close> of the source has an empty body: after a
  SyntaxError the function falls through to \<open>return 'string'\<close>.
\<close>

definition detectRegexFormat :: "maybe_string \<Rightarrow> js_error + RegexFormat" where
  "detectRegexFormat v =
     (if falsy v then Inr empty_format
      else
        (case trimOf v of
           Inl e \<Rightarrow> Inl e
         | Inr trimmed \<Rightarrow>
             if trimmed = [] then Inr empty_format
             else if startsWith trimmed 0x5B \<and> endsWith trimmed 0x5D then
               (case JSON_parse trimmed of
                  Inr parsed \<Rightarrow> if isArray parsed then Inr array_format else Inr string_format
                | Inl e \<Rightarrow> Inr string_format)
             else Inr string_format))"

text \<open>\<open>validateRegexPattern\<close>: the \<open>catch\<close> returns false.\<close>

definition validateRegexPattern :: "(jsstring \<Rightarrow> bool) \<Rightarrow> jsstring \<Rightarrow> js_error + bool" where
  "validateRegexPattern rx pattern =
     (if pattern = [] \<or> trim pattern = [] then Inr False
      else
        (case new_RegExp rx pattern of
           Inr r \<Rightarrow> Inr True
         | Inl e \<Rightarrow> Inr False))"

text \<open>
  \<open>parseRegexValue\<close>. The \<open>try\<close> block holds \<open>JSON.parse\<close> and the test of the
  elements; its \<open>catch\<close> returns the result with 'Invalid JSON format'.
\<close>

definition parseRegexValue ::
  "(jsstring \<Rightarrow> bool) \<Rightarrow> maybe_string \<Rightarrow> js_error + ParsedRegexValue" where
  "parseRegexValue rx v =
     (if falsy v then
        Inr \<lparr>format = empty_format, array = [], raw = [], isValid = True, error = None\<rparr>
      else
        (case trimOf v of
           Inl e \<Rightarrow> Inl e
         | Inr trimmed \<Rightarrow>
             if trimmed = [] then
               Inr \<lparr>format = empty_format, array = [], raw = [], isValid = True, error = None\<rparr>
             else
               (case detectRegexFormat (Str trimmed) of
                  Inl e \<Rightarrow> Inl e
                | Inr fmt \<Rightarrow>
                    if fmt = array_format then
                      (case JSON_parse trimmed of
                         Inr parsed \<Rightarrow>
                           if isArray parsed \<and> list_all isString (elements parsed) then
                             Inr \<lparr>format = array_format,
                                   array = map stringValue (elements parsed),
                                   raw = trimmed, isValid = True, error = None\<rparr>
                           else
                             Inr \<lparr>format = array_format, array = [], raw = trimmed,
                                   isValid = False,
                                   error = Some (js ''Array contains non-string values'')\<rparr>
                       | Inl e \<Rightarrow>
                           Inr \<lparr>format = array_format, array = [], raw = trimmed,
                                 isValid = False, error = Some (js ''Invalid JSON format'')\<rparr>)
                    else
                      (case validateRegexPattern rx trimmed of
                         Inl e \<Rightarrow> Inl e
                       | Inr ok \<Rightarrow>
                           Inr \<lparr>format = string_format, array = [trimmed], raw = trimmed,
                                 isValid = ok, error = None\<rparr>))))"

text \<open>\<open>regexArrayToString\<close>.\<close>

definition regexArrayToString :: "jsstring list \<Rightarrow> jsstring" where
  "regexArrayToString patterns =
     (if length patterns = 0 then []
      else if length patterns = 1 then patterns ! 0
      else JSON_stringify patterns)"

text \<open>
  \<open>validateRegexArray\<close> returns \<open>{isValid, errors}\<close>; the fields are \<open>allValid\<close> and
  \<open>messages\<close> here. The three template strings:
\<close>

record ArrayValidation =
  allValid :: bool
  messages :: "jsstring list"

definition emptyMessage :: "nat \<Rightarrow> jsstring" where
  "emptyMessage i = js ''Pattern '' @ Number_toString (i + 1) @ js '': Empty pattern''"

definition syntaxMessage :: "nat \<Rightarrow> jsstring" where
  "syntaxMessage i = js ''Pattern '' @ Number_toString (i + 1) @ js '': Invalid regex syntax''"

definition duplicateMessage :: "nat \<Rightarrow> jsstring \<Rightarrow> jsstring" where
  "duplicateMessage i pattern =
     js ''Pattern '' @ Number_toString (i + 1) @ js '': Duplicate pattern '' @
     [0x22] @ pattern @ [0x22]"

text \<open>
  The first loop, at index \<open>i\<close> with the patterns from \<open>i\<close> on still to visit;
  \<open>errs\<close> is the array \<open>errors\<close> so far.
\<close>

fun syntaxLoop ::
  "(jsstring \<Rightarrow> bool) \<Rightarrow> nat \<Rightarrow> jsstring list \<Rightarrow> jsstring list \<Rightarrow> js_error + jsstring list" where
  "syntaxLoop rx i [] errs = Inr errs"
| "syntaxLoop rx i (pattern # rest) errs =
     (if pattern = [] \<or> trim pattern = [] then
        syntaxLoop rx (i + 1) rest (errs @ [emptyMessage i])
      else
        (case validateRegexPattern rx pattern of
           Inl e \<Rightarrow> Inl e
         | Inr ok \<Rightarrow>
             if \<not> ok then syntaxLoop rx (i + 1) rest (errs @ [syntaxMessage i])
             else syntaxLoop rx (i + 1) rest errs))"

text \<open>The second loop, with the set \<open>seen\<close>.\<close>

fun duplicateLoop ::
  "nat \<Rightarrow> jsstring list \<Rightarrow> jsstring set \<Rightarrow> jsstring list \<Rightarrow> jsstring list" where
  "duplicateLoop i [] seen errs = errs"
| "duplicateLoop i (p # rest) seen errs =
     (let pattern = trim p in
      duplicateLoop (i + 1) rest (insert pattern seen)
        (if pattern \<noteq> [] \<and> pattern \<in> seen then errs @ [duplicateMessage i pattern]
         else errs))"

definition validateRegexArray ::
  "(jsstring \<Rightarrow> bool) \<Rightarrow> jsstring list \<Rightarrow> js_error + ArrayValidation" where
  "validateRegexArray rx patterns =
     (case syntaxLoop rx 0 patterns [] of
        Inl e \<Rightarrow> Inl e
      | Inr errs \<Rightarrow>
          (let errs' = duplicateLoop 0 patterns {} errs
           in Inr \<lparr>allValid = (length errs' = 0), messages = errs'\<rparr>))"

text \<open>
  \<open>findMatchingPreset\<close> and \<open>getMatchingPresetName\<close>. The object \<open>presets\<close> is given
  by \<open>Object.entries(presets)\<close>, its (name, pattern) pairs in enumeration order; \<open>None\<close>
  is \<open>null\<close>.
\<close>

fun findMatchingPreset :: "jsstring \<Rightarrow> (jsstring \<times> jsstring) list \<Rightarrow> jsstring option" where
  "findMatchingPreset pattern [] = None"
| "findMatchingPreset pattern ((name, presetPattern) # rest) =
     (if presetPattern = pattern then Some name else findMatchingPreset pattern rest)"

definition getMatchingPresetName ::
  "jsstring list \<Rightarrow> (jsstring \<times> jsstring) list \<Rightarrow> jsstring option" where
  "getMatchingPresetName patterns presets =
     (if length patterns = 1 then findMatchingPreset (patterns ! 0) presets else None)"

section \<open>The priority list editor: src/components/regex-priority-editor.tsx\<close>

text \<open>
  The state of the component: the prop \<open>patterns\<close>, the three \<open>useState\<close> cells, and
  \<open>notified\<close>, the arguments of the calls of \<open>onPatternsChange\<close> so far, oldest first.
  The owner passes \<open>setRegexArray\<close> as \<open>onPatternsChange\<close> and its \<open>regexArray\<close> as
  \<open>patterns\<close>, so a call of \<open>onPatternsChange\<close> also makes its argument the new
  \<open>patterns\<close>.
\<close>

record editor =
  patterns :: "jsstring list"
  editingIndex :: "nat option"
  editingValue :: jsstring
  errors :: "nat \<rightharpoonup> jsstring"
  notified :: "jsstring list list"

definition validatePattern :: "(jsstring \<Rightarrow> bool) \<Rightarrow> jsstring \<Rightarrow> jsstring option" where
  "validatePattern rx pattern =
     (if pattern = [] \<or> trim pattern = [] then Some (js ''Pattern cannot be empty'')
      else
        (case new_RegExp rx pattern of
           Inr r \<Rightarrow> None
         | Inl e \<Rightarrow> Some (js ''Invalid regex syntax'')))"

text \<open>The \<open>forEach\<close> of \<open>checkDuplicates\<close>, at index \<open>i\<close>.\<close>

fun duplicatesFrom ::
  "nat \<Rightarrow> jsstring list \<Rightarrow> jsstring set \<Rightarrow> (nat \<rightharpoonup> jsstring) \<Rightarrow> (nat \<rightharpoonup> jsstring)" where
  "duplicatesFrom i [] seen duplicateErrors = duplicateErrors"
| "duplicatesFrom i (pattern # rest) seen duplicateErrors =
     (let trimmed = trim pattern in
      duplicatesFrom (i + 1) rest (insert trimmed seen)
        (if trimmed \<noteq> [] \<and> trimmed \<in> seen
         then duplicateErrors(i \<mapsto> js ''Duplicate pattern'')
         else duplicateErrors))"

definition checkDuplicates :: "jsstring list \<Rightarrow> (nat \<rightharpoonup> jsstring)" where
  "checkDuplicates newPatterns = duplicatesFrom 0 newPatterns {} Map.empty"

text \<open>The \<open>forEach\<close> of \<open>updatePatterns\<close>, at index \<open>i\<close>.\<close>

fun validateFrom ::
  "(jsstring \<Rightarrow> bool) \<Rightarrow> nat \<Rightarrow> jsstring list \<Rightarrow> (nat \<rightharpoonup> jsstring) \<Rightarrow> (nat \<rightharpoonup> jsstring)" where
  "validateFrom rx i [] newErrors = newErrors"
| "validateFrom rx i (pattern # rest) newErrors =
     validateFrom rx (i + 1) rest
       (case validatePattern rx pattern of
          Some e \<Rightarrow> newErrors(i \<mapsto> e)
        | None \<Rightarrow> newErrors)"

text \<open>
  \<open>updatePatterns\<close>: \<open>Object.assign(newErrors, duplicateErrors)\<close> is \<open>++\<close>, where the
  right map wins; then \<open>setErrors\<close> and \<open>onPatternsChange\<close>.
\<close>

definition updatePatterns :: "(jsstring \<Rightarrow> bool) \<Rightarrow> jsstring list \<Rightarrow> editor \<Rightarrow> editor" where
  "updatePatterns rx newPatterns st =
     (let newErrors = validateFrom rx 0 newPatterns Map.empty;
          duplicateErrors = checkDuplicates newPatterns
      in st\<lparr>errors := newErrors ++ duplicateErrors,
            patterns := newPatterns,
            notified := notified st @ [newPatterns]\<rparr>)"

text \<open>
  \<open>handleMoveUp\<close> and \<open>handleMoveDown\<close>, for an index that is a natural number. The
  destructuring assignment swaps two cells of the copy. In \<open>handleMoveUp\<close> an index
  from the length on stores \<open>undefined\<close> at \<open>index - 1\<close>, and \<open>checkDuplicates\<close> then
  throws a TypeError on \<open>pattern.trim()\<close> before any state is set. In \<open>handleMoveDown\<close>
  the guard keeps both cells in range.
\<close>

definition swapCells :: "jsstring list \<Rightarrow> nat \<Rightarrow> nat \<Rightarrow> jsstring list" where
  "swapCells newPatterns i j = newPatterns[i := newPatterns ! j, j := newPatterns ! i]"

definition handleMoveUp :: "(jsstring \<Rightarrow> bool) \<Rightarrow> nat \<Rightarrow> editor \<Rightarrow> js_error + editor" where
  "handleMoveUp rx index st =
     (if index > 0 then
        (if index < length (patterns st)
         then Inr (updatePatterns rx (swapCells (patterns st) index (index - 1)) st)
         else Inl TypeError)
      else Inr st)"

definition handleMoveDown :: "(jsstring \<Rightarrow> bool) \<Rightarrow> nat \<Rightarrow> editor \<Rightarrow> js_error + editor" where
  "handleMoveDown rx index st =
     (if int index < int (length (patterns st)) - 1
      then Inr (updatePatterns rx (swapCells (patterns st) index (index + 1)) st)
      else Inr st)"

section \<open>Facts about trimming, detection and parsing\<close>

lemma trimEnd_append: "\<exists>ws. t = trimEnd t @ ws"
proof -
  have "rev t = takeWhile isWhiteSpace (rev t) @ dropWhile isWhiteSpace (rev t)"
    by simp
  then have "t = rev (dropWhile isWhiteSpace (rev t)) @ rev (takeWhile isWhiteSpace (rev t))"
    by (metis rev_append rev_rev_ident)
  then show ?thesis
    unfolding trimEnd_def by blast
qed

lemma trimStart_trim: "trimStart (trim s) = trim s"
proof (cases "trim s = []")
  case True
  then show ?thesis by (simp add: trimStart_def)
next
  case False
  obtain ws where ws: "trimStart s = trim s @ ws"
    using trimEnd_append [of "trimStart s"] by (auto simp: trim_def)
  with False have ne: "trimStart s \<noteq> []" by auto
  then have "\<not> isWhiteSpace (hd (trimStart s))"
    unfolding trimStart_def by (rule hd_dropWhile)
  moreover have "hd (trimStart s) = hd (trim s)"
    using ws False by (metis hd_append2)
  ultimately show ?thesis
    using False by (simp add: trimStart_def dropWhile_eq_self_iff)
qed

lemma trimEnd_idem: "trimEnd (trimEnd t) = trimEnd t"
  by (simp add: trimEnd_def)

lemma trim_idem: "trim (trim s) = trim s"
proof -
  have "trim (trim s) = trimEnd (trimStart (trim s))"
    by (simp add: trim_def)
  also have "\<dots> = trimEnd (trim s)"
    by (simp add: trimStart_trim)
  also have "\<dots> = trim s"
    by (simp add: trim_def trimEnd_idem)
  finally show ?thesis .
qed

lemma trim_fixed:
  assumes "s \<noteq> []" "\<not> isWhiteSpace (hd s)" "\<not> isWhiteSpace (last s)"
  shows "trim s = s"
proof -
  have "trimStart s = s"
    using assms by (simp add: trimStart_def dropWhile_eq_self_iff)
  moreover have "dropWhile isWhiteSpace (rev s) = rev s"
    using assms by (simp add: dropWhile_eq_self_iff hd_rev)
  then have "trimEnd s = s"
    by (simp add: trimEnd_def)
  ultimately show ?thesis by (simp add: trim_def)
qed

lemma trimOf_falsy: "\<not> falsy v \<Longrightarrow> \<exists>s. v = Str s \<and> s \<noteq> [] \<and> trimOf v = Inr (trim s)"
  by (cases v) auto

lemma detectRegexFormat_Str:
  "detectRegexFormat (Str s) =
     Inr (if trim s = [] then empty_format
          else if startsWith (trim s) 0x5B \<and> endsWith (trim s) 0x5D \<and>
                  (\<exists>xs. JSON_parse (trim s) = Inr (JArray xs))
          then array_format else string_format)"
proof (cases "s = []")
  case True
  then show ?thesis by (simp add: detectRegexFormat_def trim_def trimStart_def trimEnd_def)
next
  case False
  show ?thesis
  proof (cases "JSON_parse (trim s)")
    case (Inl e)
    with False show ?thesis by (simp add: detectRegexFormat_def)
  next
    case (Inr parsed)
    with False show ?thesis
      by (cases parsed) (simp_all add: detectRegexFormat_def)
  qed
qed

lemma detectRegexFormat_absent:
  "detectRegexFormat Undefined = Inr empty_format" "detectRegexFormat Null = Inr empty_format"
  by (simp_all add: detectRegexFormat_def)

lemma validateRegexPattern_eq:
  "validateRegexPattern rx p = Inr (p \<noteq> [] \<and> trim p \<noteq> [] \<and> rx p)"
  by (simp add: validateRegexPattern_def new_RegExp_def)

lemma trim_Nil: "trim [] = []"
  by (simp add: trim_def trimStart_def trimEnd_def)

lemma trim_ne: "trim s \<noteq> [] \<Longrightarrow> s \<noteq> []"
  using trim_Nil by auto

lemma parseRegexValue_Str:
  "parseRegexValue rx (Str s) =
     Inr (if trim s = [] then
            \<lparr>format = empty_format, array = [], raw = [], isValid = True, error = None\<rparr>
          else if startsWith (trim s) 0x5B \<and> endsWith (trim s) 0x5D \<and>
                  (\<exists>xs. JSON_parse (trim s) = Inr (JArray xs)) then
            (if list_all isString (elements (projr (JSON_parse (trim s)))) then
               \<lparr>format = array_format,
                array = map stringValue (elements (projr (JSON_parse (trim s)))),
                raw = trim s, isValid = True, error = None\<rparr>
             else
               \<lparr>format = array_format, array = [], raw = trim s, isValid = False,
                error = Some (js ''Array contains non-string values'')\<rparr>)
          else
            \<lparr>format = string_format, array = [trim s], raw = trim s,
             isValid = rx (trim s), error = None\<rparr>)"
proof (cases "trim s = []")
  case True
  then show ?thesis
    by (simp add: parseRegexValue_def)
next
  case False
  then have "s \<noteq> []" by (rule trim_ne)
  with False show ?thesis
    by (auto simp: parseRegexValue_def detectRegexFormat_Str trim_idem validateRegexPattern_eq)
qed

section \<open>JSON.parse inverts JSON.stringify on arrays of strings\<close>

lemma hexValue_hexDigit: "d < 16 \<Longrightarrow> hexValue (hexDigit d) = Some d"
proof -
  assume "d < 16"
  then have "d = 0 \<or> d = 1 \<or> d = 2 \<or> d = 3 \<or> d = 4 \<or> d = 5 \<or> d = 6 \<or> d = 7 \<or>
             d = 8 \<or> d = 9 \<or> d = 10 \<or> d = 11 \<or> d = 12 \<or> d = 13 \<or> d = 14 \<or> d = 15"
    by arith
  then show ?thesis
    by (elim disjE) (simp_all add: hexValue_def hexDigit_def)
qed

lemma hex_decompose:
  fixes n :: nat
  shows "n div 4096 * 4096 + n div 256 mod 16 * 256 + n div 16 mod 16 * 16 + n mod 16 = n"
proof -
  define a where "a = n div 16"
  define b where "b = a div 16"
  define c where "c = b div 16"
  define r0 where "r0 = n mod 16"
  define r1 where "r1 = a mod 16"
  define r2 where "r2 = b mod 16"
  have n: "n = a * 16 + r0" by (simp add: a_def r0_def)
  have a: "a = b * 16 + r1" by (simp add: b_def r1_def)
  have b: "b = c * 16 + r2" by (simp add: c_def r2_def)
  have b': "n div 256 = b" by (simp add: b_def a_def div_mult2_eq)
  have c': "n div 4096 = c" by (simp add: c_def b_def a_def div_mult2_eq)
  have "c * 4096 + r2 * 256 + r1 * 16 + r0 = n"
    by (simp add: n a b)
  then show ?thesis
    by (simp add: b' c' r0_def r1_def r2_def a_def [symmetric])
qed

lemma hex4_digits:
  "hex4 (hexDigit (unat c div 4096)) (hexDigit (unat c div 256 mod 16))
        (hexDigit (unat c div 16 mod 16)) (hexDigit (unat c mod 16)) = Some c"
proof -
  have "unat c < 2 ^ 16"
    using unsigned_less [of c] by simp
  then have lt: "unat c < 65536" by simp
  then have d: "unat c div 4096 < 16" by simp
  show ?thesis
    by (simp add: hex4_def hexValue_hexDigit d hex_decompose)
qed

lemma lexString_UnicodeEscape:
  "lexString (UnicodeEscape c @ rest) = consFst c (lexString rest)"
  by (simp add: UnicodeEscape_def hex4_digits)

lemma lexString_raw:
  "\<not> c < 0x20 \<Longrightarrow> c \<noteq> 0x22 \<Longrightarrow> c \<noteq> 0x5C \<Longrightarrow> lexString (c # rest) = consFst c (lexString rest)"
  by simp

lemma lexString_quoteUnit:
  "lexString (quoteUnit c @ rest) = consFst c (lexString rest)"
  by (simp add: quoteUnit_def lexString_UnicodeEscape unescape_def)

lemma lead_raw: "isLeadSurrogate c \<Longrightarrow> \<not> c < 0x20 \<and> c \<noteq> 0x22 \<and> c \<noteq> 0x5C"
  by (auto simp: isLeadSurrogate_def word_le_nat_alt word_less_nat_alt)

lemma trail_raw: "isTrailSurrogate c \<Longrightarrow> \<not> c < 0x20 \<and> c \<noteq> 0x22 \<and> c \<noteq> 0x5C"
  by (auto simp: isTrailSurrogate_def word_le_nat_alt word_less_nat_alt)

lemma lexString_quoteUnits:
  "lexString (quoteUnits s @ 0x22 # rest) = Some (s, rest)"
proof (induction s rule: quoteUnits.induct)
  case 1
  show ?case by simp
next
  case (2 c cs)
  show ?case
  proof (cases "isLeadSurrogate c")
    case lead: True
    show ?thesis
    proof (cases cs)
      case Nil
      with lead show ?thesis
        by (simp add: lexString_UnicodeEscape consFst_def)
    next
      case (Cons d ds)
      show ?thesis
      proof (cases "isTrailSurrogate d")
        case True
        with lead Cons 2(1) [of d ds] lead_raw [of c] trail_raw [of d] show ?thesis
          by (simp add: consFst_def)
      next
        case False
        with lead Cons 2(2) [of d ds] show ?thesis
          by (simp add: lexString_UnicodeEscape consFst_def)
      qed
    qed
  next
    case nolead: False
    show ?thesis
    proof (cases "isTrailSurrogate c")
      case True
      with nolead 2(3) show ?thesis
        by (simp add: lexString_UnicodeEscape consFst_def)
    next
      case False
      with nolead 2(4) show ?thesis
        by (simp add: lexString_quoteUnit consFst_def del: lexString.simps)
    qed
  qed
qed

lemma lex_QuoteJSONString:
  "lex (QuoteJSONString s @ rest) = consTok (TString s) (lex rest)"
  by (simp add: QuoteJSONString_def lex.simps isJSONWhiteSpace_def lexString_quoteUnits)

fun stringTokens :: "jsstring list \<Rightarrow> token list" where
  "stringTokens [] = []"
| "stringTokens [x] = [TString x]"
| "stringTokens (x # y # ys) = TString x # TComma # stringTokens (y # ys)"

lemma lex_joinComma:
  "lex (joinComma (map QuoteJSONString xs) @ [0x5D]) = Some (stringTokens xs @ [TRBracket])"
proof (induction xs rule: stringTokens.induct)
  case 1
  show ?case by (simp add: lex.simps isJSONWhiteSpace_def consTok_def)
next
  case (2 x)
  show ?case
    by (simp add: lex_QuoteJSONString lex.simps isJSONWhiteSpace_def consTok_def)
next
  case (3 x y ys)
  have "lex (joinComma (map QuoteJSONString (x # y # ys)) @ [0x5D]) =
        consTok (TString x) (lex (0x2C # joinComma (map QuoteJSONString (y # ys)) @ [0x5D]))"
    by (simp add: lex_QuoteJSONString)
  also have "\<dots> = consTok (TString x) (consTok TComma (lex (joinComma (map QuoteJSONString (y # ys)) @ [0x5D])))"
    by (simp add: lex.simps(2) [of "0x2C"] isJSONWhiteSpace_def)
  finally show ?case
    using 3 by (simp add: consTok_def)
qed

lemma lex_JSON_stringify:
  "lex (JSON_stringify xs) = Some (TLBracket # stringTokens xs @ [TRBracket])"
  by (simp add: JSON_stringify_def lex.simps(2) [of "0x5B"] isJSONWhiteSpace_def lex_joinComma consTok_def)

lemma parseTokens_strings:
  "parseTokens (Done (JString x)) (FArray acc # st) (TComma # stringTokens (y # ys) @ TRBracket # ts) =
   parseTokens (Done (JArray (rev acc @ JString x # map JString (y # ys)))) st ts"
proof (induction ys arbitrary: x y acc)
  case Nil
  show ?case by simp
next
  case (Cons z zs)
  show ?case
    using Cons [of y "JString x # acc" z] by simp
qed

lemma parseTokens_stringTokens:
  "parseTokens Value [] (TLBracket # stringTokens xs @ [TRBracket]) = Some (JArray (map JString xs))"
proof (cases xs)
  case Nil
  then show ?thesis by simp
next
  case (Cons x xs')
  show ?thesis
  proof (cases xs')
    case Nil
    with Cons show ?thesis by simp
  next
    case (Cons y ys)
    with \<open>xs = x # xs'\<close> parseTokens_strings [of x "[]" "[]" y ys "[]"] show ?thesis
      by simp
  qed
qed

lemma JSON_parse_stringify:
  "JSON_parse (JSON_stringify xs) = Inr (JArray (map JString xs))"
  unfolding JSON_parse_def lex_JSON_stringify
  by (simp only: parseTokens_stringTokens option.case)

lemma parseRegexValue_absent:
  "parseRegexValue rx Undefined =
     Inr \<lparr>format = empty_format, array = [], raw = [], isValid = True, error = None\<rparr>"
  "parseRegexValue rx Null =
     Inr \<lparr>format = empty_format, array = [], raw = [], isValid = True, error = None\<rparr>"
  by (simp_all add: parseRegexValue_def)

lemma strings_only: "list_all isString xs \<Longrightarrow> map JString (map stringValue xs) = xs"
proof (induction xs)
  case Nil
  show ?case by simp
next
  case (Cons x xs)
  then show ?case by (cases x) simp_all
qed

lemma JSON_stringify_trim: "trim (JSON_stringify xs) = JSON_stringify xs"
  by (rule trim_fixed) (simp_all add: JSON_stringify_def isWhiteSpace_def)

lemma JSON_stringify_brackets:
  "startsWith (JSON_stringify xs) 0x5B" "endsWith (JSON_stringify xs) 0x5D"
  by (simp_all add: JSON_stringify_def endsWith_def)


lemma trim_sample: "trim (js '' [1,2] '') = js ''[1,2]''"
  by (simp add: js_def trim_def trimStart_def trimEnd_def isWhiteSpace_def)

lemma JSON_parse_sample:
  "JSON_parse (js ''[1,2]'') = Inr (JArray [JNumber (js ''1''), JNumber (js ''2'')])"
  by code_simp

lemma trim_sample_array: "trim (js ''[1,2]'') = js ''[1,2]''"
  by (simp add: js_def trim_def trimStart_def trimEnd_def isWhiteSpace_def)

lemma parseRegexValue_sample:
  "parseRegexValue rx (Str (js ''[1,2]'')) =
     Inr \<lparr>format = array_format, array = [], raw = js ''[1,2]'', isValid = False,
          error = Some (js ''Array contains non-string values'')\<rparr>"
proof -
  have "startsWith (js ''[1,2]'') 0x5B" "endsWith (js ''[1,2]'') 0x5D" "js ''[1,2]'' \<noteq> []"
    by (simp_all add: js_def endsWith_def)
  then show ?thesis
    by (simp add: parseRegexValue_Str trim_sample_array JSON_parse_sample)
qed

lemma detectRegexFormat_sample:
  "detectRegexFormat (Str (trim (js ''[1,2]''))) = Inr array_format"
proof -
  have "startsWith (js ''[1,2]'') 0x5B" "endsWith (js ''[1,2]'') 0x5D" "js ''[1,2]'' \<noteq> []"
    by (simp_all add: js_def endsWith_def)
  then show ?thesis
    by (simp add: detectRegexFormat_Str trim_sample_array JSON_parse_sample)
qed

lemma regexArrayToString_sample:
  "regexArrayToString [js ''a'', js ''b''] =
     [0x5B, 0x22, 0x61, 0x22, 0x2C, 0x22, 0x62, 0x22, 0x5D]"
  by (simp add: regexArrayToString_def JSON_stringify_def QuoteJSONString_def js_def
      isLeadSurrogate_def isTrailSurrogate_def quoteUnit_def)

section \<open>Facts about validation, presets and the editor\<close>

lemma findMatchingPreset_first:
  "findMatchingPreset x presets = Some name \<longleftrightarrow>
     (\<exists>pre post. presets = pre @ (name, x) # post \<and> (\<forall>e\<in>set pre. snd e \<noteq> x))"
proof (induction presets)
  case Nil
  show ?case by simp
next
  case (Cons e rest)
  obtain n p where e: "e = (n, p)" by (cases e)
  show ?case
  proof (cases "p = x")
    case True
    have "(\<exists>pre post. (n, x) # rest = pre @ (name, x) # post \<and> (\<forall>e\<in>set pre. snd e \<noteq> x)) \<longleftrightarrow> n = name"
    proof
      assume "\<exists>pre post. (n, x) # rest = pre @ (name, x) # post \<and> (\<forall>e\<in>set pre. snd e \<noteq> x)"
      then obtain pre post where eq: "(n, x) # rest = pre @ (name, x) # post"
        and no: "\<forall>e\<in>set pre. snd e \<noteq> x" by blast
      show "n = name"
      proof (cases pre)
        case Nil
        with eq show ?thesis by simp
      next
        case (Cons a pre')
        with eq have "a = (n, x)" by simp
        with Cons no show ?thesis by simp
      qed
    next
      assume "n = name"
      then have "(n, x) # rest = [] @ (name, x) # rest \<and> (\<forall>e\<in>set []. snd e \<noteq> x)"
        by simp
      then show "\<exists>pre post. (n, x) # rest = pre @ (name, x) # post \<and> (\<forall>e\<in>set pre. snd e \<noteq> x)"
        by blast
    qed
    with True e show ?thesis by auto
  next
    case False
    have "(\<exists>pre post. (n, p) # rest = pre @ (name, x) # post \<and> (\<forall>e\<in>set pre. snd e \<noteq> x)) \<longleftrightarrow>
          (\<exists>pre post. rest = pre @ (name, x) # post \<and> (\<forall>e\<in>set pre. snd e \<noteq> x))"
    proof
      assume "\<exists>pre post. (n, p) # rest = pre @ (name, x) # post \<and> (\<forall>e\<in>set pre. snd e \<noteq> x)"
      then obtain pre post where eq: "(n, p) # rest = pre @ (name, x) # post"
        and no: "\<forall>e\<in>set pre. snd e \<noteq> x" by blast
      from eq False obtain pre' where pre: "pre = (n, p) # pre'"
        by (cases pre) auto
      with eq no have "rest = pre' @ (name, x) # post \<and> (\<forall>e\<in>set pre'. snd e \<noteq> x)"
        by simp
      then show "\<exists>pre post. rest = pre @ (name, x) # post \<and> (\<forall>e\<in>set pre. snd e \<noteq> x)"
        by blast
    next
      assume "\<exists>pre post. rest = pre @ (name, x) # post \<and> (\<forall>e\<in>set pre. snd e \<noteq> x)"
      then obtain pre post where "rest = pre @ (name, x) # post" "\<forall>e\<in>set pre. snd e \<noteq> x"
        by blast
      with False have "(n, p) # rest = ((n, p) # pre) @ (name, x) # post \<and>
          (\<forall>e\<in>set ((n, p) # pre). snd e \<noteq> x)"
        by simp
      then show "\<exists>pre post. (n, p) # rest = pre @ (name, x) # post \<and> (\<forall>e\<in>set pre. snd e \<noteq> x)"
        by blast
    qed
    with False e Cons.IH show ?thesis by simp
  qed
qed

lemma findMatchingPreset_None:
  "findMatchingPreset x presets = None \<longleftrightarrow> (\<forall>e\<in>set presets. snd e \<noteq> x)"
  by (induction presets) (auto split: if_splits)

lemma updatePatterns_fields:
  "patterns (updatePatterns rx ps st) = ps"
  "notified (updatePatterns rx ps st) = notified st @ [ps]"
  "editingIndex (updatePatterns rx ps st) = editingIndex st"
  "editingValue (updatePatterns rx ps st) = editingValue st"
  by (simp_all add: updatePatterns_def Let_def)

lemma swapCells_nth:
  assumes "i < length ps" "j < length ps"
  shows "length (swapCells ps i j) = length ps"
    and "swapCells ps i j ! i = ps ! j"
    and "swapCells ps i j ! j = ps ! i"
    and "k \<noteq> i \<Longrightarrow> k \<noteq> j \<Longrightarrow> swapCells ps i j ! k = ps ! k"
  using assms by (auto simp: swapCells_def nth_list_update)

lemma trim_sample_class: "trim (js ''[abc]'') = js ''[abc]''"
  by (simp add: js_def trim_def trimStart_def trimEnd_def isWhiteSpace_def)

lemma JSON_parse_sample_class: "JSON_parse (js ''[abc]'') = Inl SyntaxError"
  by code_simp

lemma RegExp_fragment_class: "RegExp_fragment (js ''[abc]'')"
  by code_simp

lemma in_image_take:
  assumes "q \<le> length ps"
  shows "y \<in> f ` set (take q ps) \<longleftrightarrow> (\<exists>j<q. f (ps ! j) = y)"
proof -
  have "set (take q ps) = nth ps ` {0..<q}"
    using assms by (simp add: nth_image)
  then show ?thesis by auto
qed

lemma syntaxLoop_total: "\<exists>e. syntaxLoop rx i ps errs = Inr e"
  by (induction ps arbitrary: i errs) (simp_all add: validateRegexPattern_eq)

lemma duplicateLoop_mono: "set errs \<subseteq> set (duplicateLoop i ps seen errs)"
proof (induction ps arbitrary: i seen errs)
  case Nil
  show ?case by simp
next
  case (Cons p rest)
  show ?case
  proof (cases "trim p \<noteq> [] \<and> trim p \<in> seen")
    case True
    with Cons [of "errs @ [duplicateMessage i (trim p)]" "i + 1" "insert (trim p) seen"]
    show ?thesis by (simp add: Let_def)
  next
    case False
    with Cons [of errs "i + 1" "insert (trim p) seen"]
    show ?thesis by (auto simp: Let_def)
  qed
qed

lemma duplicateLoop_flags:
  "q < length ps \<Longrightarrow> trim (ps ! q) \<noteq> [] \<Longrightarrow> trim (ps ! q) \<in> seen \<union> trim ` set (take q ps) \<Longrightarrow>
   duplicateMessage (i + q) (trim (ps ! q)) \<in> set (duplicateLoop i ps seen errs)"
proof (induction ps arbitrary: i q seen errs)
  case Nil
  then show ?case by simp
next
  case (Cons p rest)
  show ?case
  proof (cases q)
    case 0
    with Cons.prems have "trim p \<noteq> []" "trim p \<in> seen"
      by simp_all
    then have "duplicateLoop i (p # rest) seen errs =
        duplicateLoop (i + 1) rest (insert (trim p) seen) (errs @ [duplicateMessage i (trim p)])"
      by (simp add: Let_def)
    moreover have "duplicateMessage i (trim p) \<in> set (errs @ [duplicateMessage i (trim p)])"
      by simp
    ultimately show ?thesis
      using 0 duplicateLoop_mono [of "errs @ [duplicateMessage i (trim p)]" "i + 1" rest
          "insert (trim p) seen"]
      by auto
  next
    case (Suc q')
    with Cons.prems have "q' < length rest" "trim (rest ! q') \<noteq> []"
      "trim (rest ! q') \<in> insert (trim p) seen \<union> trim ` set (take q' rest)"
      by auto
    from Cons.IH [OF this, of "i + 1"] Suc show ?thesis
      by (simp add: Let_def)
  qed
qed

lemma validateRegexArray_eq:
  "\<exists>e. syntaxLoop rx 0 ps [] = Inr e \<and>
       validateRegexArray rx ps =
         Inr \<lparr>allValid = (duplicateLoop 0 ps {} e = []), messages = duplicateLoop 0 ps {} e\<rparr>"
proof -
  obtain e where "syntaxLoop rx 0 ps [] = Inr e"
    using syntaxLoop_total by blast
  then show ?thesis
    by (simp add: validateRegexArray_def Let_def)
qed

lemma Number_toString_digit: "n < 10 \<Longrightarrow> Number_toString n = [digit_unit n]"
  by (simp add: Number_toString.simps)

lemma trim_a: "trim (js ''a'') = js ''a''"
  by (simp add: js_def trim_def trimStart_def trimEnd_def isWhiteSpace_def)

lemma trim_b: "trim (js ''b'') = js ''b''"
  by (simp add: js_def trim_def trimStart_def trimEnd_def isWhiteSpace_def)

lemma validateRegexArray_sample:
  assumes "rx (js ''a'')" "rx (js ''b'')"
  shows "validateRegexArray rx [js ''a'', js ''b'', js ''a''] =
     Inr \<lparr>allValid = False,
          messages = [js ''Pattern 3: Duplicate pattern '' @ [0x22] @ js ''a'' @ [0x22]]\<rparr>"
proof -
  have ne: "js ''a'' \<noteq> []" "js ''b'' \<noteq> []" "js ''b'' \<noteq> js ''a''"
    by (simp_all add: js_def)
  have s: "syntaxLoop rx 0 [js ''a'', js ''b'', js ''a''] [] = Inr []"
    using assms ne by (simp add: validateRegexPattern_eq trim_a trim_b)
  have d: "duplicateLoop 0 [js ''a'', js ''b'', js ''a''] {} [] = [duplicateMessage 2 (js ''a'')]"
    using ne by (simp add: trim_a trim_b Let_def numeral_2_eq_2)
  have m: "duplicateMessage 2 (js ''a'') = js ''Pattern 3: Duplicate pattern '' @ [0x22] @ js ''a'' @ [0x22]"
    by (simp add: duplicateMessage_def Number_toString_digit digit_unit_def js_def)
  show ?thesis
    unfolding validateRegexArray_def s sum.case Let_def d m by simp
qed












section \<open>The claims\<close>

subsection \<open>C1: detectRegexFormat\<close>

text \<open>
  C1. \<open>detectRegexFormat\<close> never throws. It returns 'empty' exactly when the input is
  absent or trims to the empty string; 'array' exactly when the input is a string whose
  trimmed text starts with \<open>[\<close>, ends with \<open>]\<close> and parses as JSON to a list, whatever
  its elements; and 'string' in every other case, bracket-delimited text that is not
  valid JSON included.
\<close>

theorem detectRegexFormat_classifies:
  "(\<exists>f. detectRegexFormat v = Inr f) \<and>
   (detectRegexFormat v = Inr empty_format \<longleftrightarrow>
      v = Undefined \<or> v = Null \<or> (\<exists>s. v = Str s \<and> trim s = [])) \<and>
   (detectRegexFormat v = Inr array_format \<longleftrightarrow>
      (\<exists>s. v = Str s \<and> startsWith (trim s) 0x5B \<and> endsWith (trim s) 0x5D \<and>
           (\<exists>xs. JSON_parse (trim s) = Inr (JArray xs)))) \<and>
   (detectRegexFormat v = Inr string_format \<longleftrightarrow>
      (\<exists>s. v = Str s \<and> trim s \<noteq> [] \<and>
           \<not> (startsWith (trim s) 0x5B \<and> endsWith (trim s) 0x5D \<and>
              (\<exists>xs. JSON_parse (trim s) = Inr (JArray xs)))))"
proof (cases v)
  case Undefined
  then show ?thesis by (simp add: detectRegexFormat_absent)
next
  case Null
  then show ?thesis by (simp add: detectRegexFormat_absent)
next
  case (Str s)
  have "startsWith (trim s) 0x5B \<Longrightarrow> trim s \<noteq> []"
    by auto
  with Str show ?thesis
    by (auto simp: detectRegexFormat_Str)
qed

theorem detectRegexFormat_classifies_witness:
  "detectRegexFormat (Str (js '' [1,2] '')) = Inr array_format"
proof -
  have "startsWith (trim (js '' [1,2] '')) 0x5B" "endsWith (trim (js '' [1,2] '')) 0x5D"
    by (simp_all add: trim_sample) (simp_all add: js_def endsWith_def)
  moreover have "\<exists>xs. JSON_parse (trim (js '' [1,2] '')) = Inr (JArray xs)"
    by (simp add: trim_sample JSON_parse_sample)
  ultimately show ?thesis
    using detectRegexFormat_classifies [of "Str (js '' [1,2] '')"] by blast
qed

subsection \<open>C2: serialize, then parse\<close>

text \<open>
  C2. For every sequence \<open>p\<close> of two or more strings (distinct or not),
  \<open>parseRegexValue (regexArrayToString p)\<close> has format 'array', the patterns \<open>p\<close>,
  \<open>isValid\<close> true and no error.
\<close>

theorem regexArrayToString_roundtrip:
  assumes "2 \<le> length p"
  shows "parseRegexValue rx (Str (regexArrayToString p)) =
           Inr \<lparr>format = array_format, array = p, raw = regexArrayToString p,
                isValid = True, error = None\<rparr>"
proof -
  from assms have "length p \<noteq> 0" "length p \<noteq> 1"
    by auto
  then have s: "regexArrayToString p = JSON_stringify p"
    unfolding regexArrayToString_def by simp
  have "JSON_stringify p \<noteq> []"
    by (simp add: JSON_stringify_def)
  moreover have "list_all isString (map JString p)"
    by (induction p) simp_all
  moreover have "map stringValue (map JString p) = p"
    by (induction p) simp_all
  ultimately show ?thesis
    by (simp add: s parseRegexValue_Str JSON_stringify_trim JSON_stringify_brackets
        JSON_parse_stringify)
qed

theorem regexArrayToString_roundtrip_witness:
  "distinct [js ''a'', js ''b''] \<and>
   parseRegexValue RegExp_fragment (Str (regexArrayToString [js ''a'', js ''b''])) =
     Inr \<lparr>format = array_format, array = [js ''a'', js ''b''],
          raw = [0x5B, 0x22, 0x61, 0x22, 0x2C, 0x22, 0x62, 0x22, 0x5D],
          isValid = True, error = None\<rparr>"
proof -
  have "2 \<le> length [js ''a'', js ''b'']"
    by simp
  from regexArrayToString_roundtrip [OF this, of RegExp_fragment] show ?thesis
    by (simp add: regexArrayToString_sample) (simp add: js_def)
qed

subsection \<open>C3: parsing a JSON array\<close>

text \<open>
  C3. When \<open>detectRegexFormat\<close> classifies the trimmed text as 'array', the text decodes
  to a list \<open>xs\<close> and \<open>parseRegexValue\<close> returns, without throwing: format 'array', the
  elements in order and \<open>isValid\<close> true if every element is a string; format 'array', no
  patterns, \<open>isValid\<close> false and the error 'Array contains non-string values' otherwise.
  \<open>[1,2]\<close> is of the second kind.
\<close>

theorem parseRegexValue_array:
  "(detectRegexFormat (Str (trim s)) = Inr array_format \<longrightarrow>
     (\<exists>xs. JSON_parse (trim s) = Inr (JArray xs) \<and>
        (list_all isString xs \<longrightarrow>
           xs = map JString (map stringValue xs) \<and>
           parseRegexValue rx (Str s) =
             Inr \<lparr>format = array_format, array = map stringValue xs, raw = trim s,
                  isValid = True, error = None\<rparr>) \<and>
        (\<not> list_all isString xs \<longrightarrow>
           parseRegexValue rx (Str s) =
             Inr \<lparr>format = array_format, array = [], raw = trim s, isValid = False,
                  error = Some (js ''Array contains non-string values'')\<rparr>))) \<and>
   parseRegexValue rx (Str (js ''[1,2]'')) =
     Inr \<lparr>format = array_format, array = [], raw = js ''[1,2]'', isValid = False,
          error = Some (js ''Array contains non-string values'')\<rparr>"
proof (intro conjI impI)
  assume "detectRegexFormat (Str (trim s)) = Inr array_format"
  then obtain xs where b: "startsWith (trim s) 0x5B" "endsWith (trim s) 0x5D"
    and xs: "JSON_parse (trim s) = Inr (JArray xs)"
    by (auto simp: detectRegexFormat_Str trim_idem split: if_splits)
  from b have "trim s \<noteq> []" by auto
  with b xs show "\<exists>xs. JSON_parse (trim s) = Inr (JArray xs) \<and>
        (list_all isString xs \<longrightarrow>
           xs = map JString (map stringValue xs) \<and>
           parseRegexValue rx (Str s) =
             Inr \<lparr>format = array_format, array = map stringValue xs, raw = trim s,
                  isValid = True, error = None\<rparr>) \<and>
        (\<not> list_all isString xs \<longrightarrow>
           parseRegexValue rx (Str s) =
             Inr \<lparr>format = array_format, array = [], raw = trim s, isValid = False,
                  error = Some (js ''Array contains non-string values'')\<rparr>)"
    using strings_only [of xs] by (auto simp: parseRegexValue_Str)
next
  show "parseRegexValue rx (Str (js ''[1,2]'')) =
     Inr \<lparr>format = array_format, array = [], raw = js ''[1,2]'', isValid = False,
          error = Some (js ''Array contains non-string values'')\<rparr>"
    by (rule parseRegexValue_sample)
qed

theorem parseRegexValue_array_witness:
  "detectRegexFormat (Str (trim (js ''[1,2]''))) = Inr array_format \<and>
   JSON_parse (trim (js ''[1,2]'')) = Inr (JArray [JNumber (js ''1''), JNumber (js ''2'')]) \<and>
   \<not> list_all isString [JNumber (js ''1''), JNumber (js ''2'')] \<and>
   parseRegexValue RegExp_fragment (Str (js ''[1,2]'')) =
     Inr \<lparr>format = array_format, array = [], raw = trim (js ''[1,2]''), isValid = False,
          error = Some (js ''Array contains non-string values'')\<rparr>"
  using parseRegexValue_array [of "js ''[1,2]''" RegExp_fragment] detectRegexFormat_sample
  by (auto simp: trim_sample_array JSON_parse_sample)

subsection \<open>C4: malformed storage values\<close>

text \<open>
  C4, as the claim states it, fails: \<open>[abc]\<close> is bracket-delimited and not valid JSON, yet
  \<open>parseRegexValue\<close> returns it as a single pattern of format 'string' with \<open>isValid\<close>
  true and no error field.
\<close>

theorem parseRegexValue_malformed_counterexample:
  "startsWith (trim (js ''[abc]'')) 0x5B \<and> endsWith (trim (js ''[abc]'')) 0x5D \<and>
   JSON_parse (trim (js ''[abc]'')) = Inl SyntaxError \<and>
   parseRegexValue RegExp_fragment (Str (js ''[abc]'')) =
     Inr \<lparr>format = string_format, array = [js ''[abc]''], raw = js ''[abc]'',
          isValid = True, error = None\<rparr>"
proof -
  have "startsWith (js ''[abc]'') 0x5B" "endsWith (js ''[abc]'') 0x5D" "js ''[abc]'' \<noteq> []"
    by (simp_all add: js_def endsWith_def)
  then show ?thesis
    by (simp add: parseRegexValue_Str trim_sample_class JSON_parse_sample_class
        RegExp_fragment_class)
qed

text \<open>
  C4, amended. \<open>parseRegexValue\<close> never throws. For bracket-delimited text that decodes to
  a JSON array with an element that is not a string it returns format 'array', no
  patterns, \<open>isValid\<close> false and the error 'Array contains non-string values'. For
  bracket-delimited text that is not valid JSON it returns format 'string' with the
  trimmed text as the one pattern, \<open>isValid\<close> true exactly when the text compiles as a
  regular expression, and no error field.
\<close>

theorem parseRegexValue_malformed:
  "(\<exists>r. parseRegexValue rx v = Inr r) \<and>
   (startsWith (trim s) 0x5B \<and> endsWith (trim s) 0x5D \<and>
    JSON_parse (trim s) = Inr (JArray xs) \<and> \<not> list_all isString xs \<longrightarrow>
      parseRegexValue rx (Str s) =
        Inr \<lparr>format = array_format, array = [], raw = trim s, isValid = False,
             error = Some (js ''Array contains non-string values'')\<rparr>) \<and>
   (startsWith (trim s) 0x5B \<and> endsWith (trim s) 0x5D \<and> JSON_parse (trim s) = Inl e \<longrightarrow>
      parseRegexValue rx (Str s) =
        Inr \<lparr>format = string_format, array = [trim s], raw = trim s,
             isValid = rx (trim s), error = None\<rparr>)"
proof (intro conjI impI)
  show "\<exists>r. parseRegexValue rx v = Inr r"
    by (cases v) (simp_all add: parseRegexValue_absent parseRegexValue_Str)
next
  assume a: "startsWith (trim s) 0x5B \<and> endsWith (trim s) 0x5D \<and>
    JSON_parse (trim s) = Inr (JArray xs) \<and> \<not> list_all isString xs"
  then have "trim s \<noteq> []" by auto
  with a show "parseRegexValue rx (Str s) =
        Inr \<lparr>format = array_format, array = [], raw = trim s, isValid = False,
             error = Some (js ''Array contains non-string values'')\<rparr>"
    by (simp add: parseRegexValue_Str)
next
  assume a: "startsWith (trim s) 0x5B \<and> endsWith (trim s) 0x5D \<and> JSON_parse (trim s) = Inl e"
  then have "trim s \<noteq> []" by auto
  with a show "parseRegexValue rx (Str s) =
        Inr \<lparr>format = string_format, array = [trim s], raw = trim s,
             isValid = rx (trim s), error = None\<rparr>"
    by (simp add: parseRegexValue_Str)
qed

theorem parseRegexValue_malformed_witness:
  "startsWith (trim (js ''[1,2]'')) 0x5B \<and> endsWith (trim (js ''[1,2]'')) 0x5D \<and>
   JSON_parse (trim (js ''[1,2]'')) = Inr (JArray [JNumber (js ''1''), JNumber (js ''2'')]) \<and>
   \<not> list_all isString [JNumber (js ''1''), JNumber (js ''2'')] \<and>
   parseRegexValue RegExp_fragment (Str (js ''[1,2]'')) =
     Inr \<lparr>format = array_format, array = [], raw = trim (js ''[1,2]''), isValid = False,
          error = Some (js ''Array contains non-string values'')\<rparr> \<and>
   startsWith (trim (js ''[abc]'')) 0x5B \<and> endsWith (trim (js ''[abc]'')) 0x5D \<and>
   JSON_parse (trim (js ''[abc]'')) = Inl SyntaxError \<and>
   parseRegexValue RegExp_fragment (Str (js ''[abc]'')) =
     Inr \<lparr>format = string_format, array = [trim (js ''[abc]'')], raw = trim (js ''[abc]''),
          isValid = RegExp_fragment (trim (js ''[abc]'')), error = None\<rparr>"
proof -
  have 1: "startsWith (trim (js ''[1,2]'')) 0x5B \<and> endsWith (trim (js ''[1,2]'')) 0x5D \<and>
    JSON_parse (trim (js ''[1,2]'')) = Inr (JArray [JNumber (js ''1''), JNumber (js ''2'')]) \<and>
    \<not> list_all isString [JNumber (js ''1''), JNumber (js ''2'')]"
    by (simp add: trim_sample_array JSON_parse_sample) (simp add: js_def endsWith_def)
  have 2: "startsWith (trim (js ''[abc]'')) 0x5B \<and> endsWith (trim (js ''[abc]'')) 0x5D \<and>
    JSON_parse (trim (js ''[abc]'')) = Inl SyntaxError"
    by (simp add: trim_sample_class JSON_parse_sample_class) (simp add: js_def endsWith_def)
  from 1 2
    parseRegexValue_malformed [of RegExp_fragment Null "js ''[1,2]''"
      "[JNumber (js ''1''), JNumber (js ''2'')]" SyntaxError]
    parseRegexValue_malformed [of RegExp_fragment Null "js ''[abc]''" "[]" SyntaxError]
  show ?thesis by blast
qed

subsection \<open>C5: duplicates in validateRegexArray\<close>

text \<open>
  C5, as the claim states it, fails: in \<open>["", " "]\<close> the second pattern trims to the
  text the first one trims to, and it gets no duplicate message, because the loop skips
  a pattern whose trimmed text is empty.
\<close>

theorem validateRegexArray_duplicates_counterexample:
  "trim (js '' '') = trim (js '''') \<and>
   validateRegexArray RegExp_fragment [js '''', js '' ''] =
     Inr \<lparr>allValid = False,
          messages = [js ''Pattern 1: Empty pattern'', js ''Pattern 2: Empty pattern'']\<rparr> \<and>
   duplicateMessage 1 (trim (js '' '')) \<notin>
     set [js ''Pattern 1: Empty pattern'', js ''Pattern 2: Empty pattern'']"
  by code_simp

text \<open>
  C5, amended. \<open>validateRegexArray\<close> returns, with \<open>isValid\<close> true exactly when there is
  no message, and every position whose trimmed text is not empty and equals the trimmed
  text of an earlier position has its duplicate message among the messages. On
  \<open>["a","b","a"]\<close>, where the host compiles \<open>a\<close> and \<open>b\<close>, the only message is the
  duplicate message of position 2 (\<open>Pattern 3\<close>), and \<open>isValid\<close> is false.
\<close>

theorem validateRegexArray_duplicates:
  "(\<exists>errs. validateRegexArray rx ps = Inr \<lparr>allValid = (errs = []), messages = errs\<rparr> \<and>
      (\<forall>i<length ps. trim (ps ! i) \<noteq> [] \<and> (\<exists>j<i. trim (ps ! j) = trim (ps ! i)) \<longrightarrow>
         duplicateMessage i (trim (ps ! i)) \<in> set errs)) \<and>
   (rx (js ''a'') \<and> rx (js ''b'') \<longrightarrow>
      validateRegexArray rx [js ''a'', js ''b'', js ''a''] =
        Inr \<lparr>allValid = False,
             messages = [js ''Pattern 3: Duplicate pattern '' @ [0x22] @ js ''a'' @ [0x22]]\<rparr>)"
proof (intro conjI impI)
  obtain e where v: "validateRegexArray rx ps =
      Inr \<lparr>allValid = (duplicateLoop 0 ps {} e = []), messages = duplicateLoop 0 ps {} e\<rparr>"
    using validateRegexArray_eq by blast
  have "duplicateMessage i (trim (ps ! i)) \<in> set (duplicateLoop 0 ps {} e)"
    if "i < length ps" "trim (ps ! i) \<noteq> []" "\<exists>j<i. trim (ps ! j) = trim (ps ! i)" for i
  proof -
    from that have "trim (ps ! i) \<in> {} \<union> trim ` set (take i ps)"
      by (simp add: in_image_take)
    from duplicateLoop_flags [OF that(1,2) this, of 0 e] show ?thesis
      by simp
  qed
  with v show "\<exists>errs. validateRegexArray rx ps = Inr \<lparr>allValid = (errs = []), messages = errs\<rparr> \<and>
      (\<forall>i<length ps. trim (ps ! i) \<noteq> [] \<and> (\<exists>j<i. trim (ps ! j) = trim (ps ! i)) \<longrightarrow>
         duplicateMessage i (trim (ps ! i)) \<in> set errs)"
    by blast
next
  assume "rx (js ''a'') \<and> rx (js ''b'')"
  then show "validateRegexArray rx [js ''a'', js ''b'', js ''a''] =
        Inr \<lparr>allValid = False,
             messages = [js ''Pattern 3: Duplicate pattern '' @ [0x22] @ js ''a'' @ [0x22]]\<rparr>"
    by (simp add: validateRegexArray_sample)
qed

theorem validateRegexArray_duplicates_witness:
  "RegExp_fragment (js ''a'') \<and> RegExp_fragment (js ''b'') \<and>
   (2::nat) < length [js ''a'', js ''b'', js ''a''] \<and>
   trim ([js ''a'', js ''b'', js ''a''] ! 2) \<noteq> [] \<and>
   trim ([js ''a'', js ''b'', js ''a''] ! 0) = trim ([js ''a'', js ''b'', js ''a''] ! 2) \<and>
   validateRegexArray RegExp_fragment [js ''a'', js ''b'', js ''a''] =
     Inr \<lparr>allValid = False,
          messages = [js ''Pattern 3: Duplicate pattern '' @ [0x22] @ js ''a'' @ [0x22]]\<rparr> \<and>
   duplicateMessage 2 (trim ([js ''a'', js ''b'', js ''a''] ! 2)) \<in>
     set [js ''Pattern 3: Duplicate pattern '' @ [0x22] @ js ''a'' @ [0x22]]"
proof -
  have r: "RegExp_fragment (js ''a'') \<and> RegExp_fragment (js ''b'')"
    by code_simp
  have l: "(2::nat) < length [js ''a'', js ''b'', js ''a'']"
    by simp
  have t: "trim ([js ''a'', js ''b'', js ''a''] ! 2) \<noteq> []"
    by (simp add: trim_a) (simp add: js_def)
  have e: "\<exists>j<(2::nat). trim ([js ''a'', js ''b'', js ''a''] ! j) = trim ([js ''a'', js ''b'', js ''a''] ! 2)"
    by (rule exI [of _ 0]) simp
  from validateRegexArray_duplicates [of RegExp_fragment "[js ''a'', js ''b'', js ''a'']"] r
  have v: "validateRegexArray RegExp_fragment [js ''a'', js ''b'', js ''a''] =
     Inr \<lparr>allValid = False,
          messages = [js ''Pattern 3: Duplicate pattern '' @ [0x22] @ js ''a'' @ [0x22]]\<rparr>"
    by blast
  from validateRegexArray_duplicates [of RegExp_fragment "[js ''a'', js ''b'', js ''a'']"]
  obtain errs where errs: "validateRegexArray RegExp_fragment [js ''a'', js ''b'', js ''a''] =
        Inr \<lparr>allValid = (errs = []), messages = errs\<rparr>"
    and all: "\<forall>i<length [js ''a'', js ''b'', js ''a''].
        trim ([js ''a'', js ''b'', js ''a''] ! i) \<noteq> [] \<and>
        (\<exists>j<i. trim ([js ''a'', js ''b'', js ''a''] ! j) = trim ([js ''a'', js ''b'', js ''a''] ! i)) \<longrightarrow>
        duplicateMessage i (trim ([js ''a'', js ''b'', js ''a''] ! i)) \<in> set errs"
    by blast
  from errs v have "errs = [js ''Pattern 3: Duplicate pattern '' @ [0x22] @ js ''a'' @ [0x22]]"
    by simp
  with all l t e have "duplicateMessage 2 (trim ([js ''a'', js ''b'', js ''a''] ! 2)) \<in>
     set [js ''Pattern 3: Duplicate pattern '' @ [0x22] @ js ''a'' @ [0x22]]"
    by blast
  with r l t v show ?thesis
    by simp
qed

subsection \<open>C6: a position that is both invalid and a duplicate\<close>




subsection \<open>C7: the collapse law of regexArrayToString\<close>

text \<open>
  C7. \<open>regexArrayToString [x]\<close> is \<open>x\<close> itself, untrimmed; \<open>regexArrayToString []\<close> is the
  empty string; and for two or more elements the result is the JSON array literal of the
  sequence: \<open>[\<close>, the quoted elements separated by commas, \<open>]\<close>, which \<open>JSON.parse\<close> decodes
  to the same strings in the same order.
\<close>

theorem regexArrayToString_collapse:
  "regexArrayToString [x] = x \<and> regexArrayToString [] = [] \<and>
   (2 \<le> length ps \<longrightarrow>
      regexArrayToString ps = JSON_stringify ps \<and>
      JSON_stringify ps = 0x5B # joinComma (map QuoteJSONString ps) @ [0x5D] \<and>
      JSON_parse (regexArrayToString ps) = Inr (JArray (map JString ps)))"
  by (simp add: regexArrayToString_def JSON_parse_stringify JSON_stringify_def [symmetric])

theorem regexArrayToString_collapse_witness:
  "2 \<le> length [js ''a'', js ''b''] \<and>
   regexArrayToString [js '' a ''] = js '' a '' \<and>
   regexArrayToString [js ''a'', js ''b''] = JSON_stringify [js ''a'', js ''b''] \<and>
   JSON_parse (regexArrayToString [js ''a'', js ''b'']) =
     Inr (JArray (map JString [js ''a'', js ''b'']))"
proof -
  have "2 \<le> length [js ''a'', js ''b'']"
    by simp
  with regexArrayToString_collapse [of "js '' a ''" "[js ''a'', js ''b'']"] show ?thesis
    by blast
qed

subsection \<open>C8: moving a pattern up or down\<close>

text \<open>
  C8. \<open>handleMoveUp\<close> at position 0 and \<open>handleMoveDown\<close> at the last position return
  the state as it is: same sequence, no call of \<open>onPatternsChange\<close>. A move up from a
  position between 1 and the last, and a move down from a position before the last,
  exchange the two neighbouring patterns, leave the others in place, and call
  \<open>onPatternsChange\<close> exactly once, with the whole new sequence. From \<open>["x","y"]\<close>, moving
  position 0 down gives \<open>["y","x"]\<close>.
\<close>

theorem handleMove_guarded:
  "handleMoveUp rx 0 st = Inr st \<and>
   (index + 1 = length (patterns st) \<longrightarrow> handleMoveDown rx index st = Inr st) \<and>
   (0 < index \<and> index < length (patterns st) \<longrightarrow>
      (\<exists>st'. handleMoveUp rx index st = Inr st' \<and>
         length (patterns st') = length (patterns st) \<and>
         patterns st' ! (index - 1) = patterns st ! index \<and>
         patterns st' ! index = patterns st ! (index - 1) \<and>
         (\<forall>k. k \<noteq> index \<and> k \<noteq> index - 1 \<longrightarrow> patterns st' ! k = patterns st ! k) \<and>
         notified st' = notified st @ [patterns st'] \<and>
         editingIndex st' = editingIndex st)) \<and>
   (index + 1 < length (patterns st) \<longrightarrow>
      (\<exists>st'. handleMoveDown rx index st = Inr st' \<and>
         length (patterns st') = length (patterns st) \<and>
         patterns st' ! (index + 1) = patterns st ! index \<and>
         patterns st' ! index = patterns st ! (index + 1) \<and>
         (\<forall>k. k \<noteq> index \<and> k \<noteq> index + 1 \<longrightarrow> patterns st' ! k = patterns st ! k) \<and>
         notified st' = notified st @ [patterns st'] \<and>
         editingIndex st' = editingIndex st)) \<and>
   (patterns st = [js ''x'', js ''y''] \<longrightarrow>
      (\<exists>st'. handleMoveDown rx 0 st = Inr st' \<and> patterns st' = [js ''y'', js ''x''] \<and>
         notified st' = notified st @ [[js ''y'', js ''x'']] \<and>
         editingIndex st' = editingIndex st))"
proof (intro conjI impI)
  show "handleMoveUp rx 0 st = Inr st"
    by (simp add: handleMoveUp_def)
next
  assume "index + 1 = length (patterns st)"
  then have "\<not> int index < int (length (patterns st)) - 1"
    by simp
  then show "handleMoveDown rx index st = Inr st"
    by (simp add: handleMoveDown_def)
next
  assume a: "0 < index \<and> index < length (patterns st)"
  then have "index - 1 < length (patterns st)" by arith
  with a show "\<exists>st'. handleMoveUp rx index st = Inr st' \<and>
         length (patterns st') = length (patterns st) \<and>
         patterns st' ! (index - 1) = patterns st ! index \<and>
         patterns st' ! index = patterns st ! (index - 1) \<and>
         (\<forall>k. k \<noteq> index \<and> k \<noteq> index - 1 \<longrightarrow> patterns st' ! k = patterns st ! k) \<and>
         notified st' = notified st @ [patterns st'] \<and>
         editingIndex st' = editingIndex st"
    by (simp add: handleMoveUp_def updatePatterns_fields swapCells_nth)
next
  assume a: "index + 1 < length (patterns st)"
  then have "int index < int (length (patterns st)) - 1" "index < length (patterns st)"
    by simp_all
  with a show "\<exists>st'. handleMoveDown rx index st = Inr st' \<and>
         length (patterns st') = length (patterns st) \<and>
         patterns st' ! (index + 1) = patterns st ! index \<and>
         patterns st' ! index = patterns st ! (index + 1) \<and>
         (\<forall>k. k \<noteq> index \<and> k \<noteq> index + 1 \<longrightarrow> patterns st' ! k = patterns st ! k) \<and>
         notified st' = notified st @ [patterns st'] \<and>
         editingIndex st' = editingIndex st"
    by (simp add: handleMoveDown_def updatePatterns_fields swapCells_nth)
next
  assume "patterns st = [js ''x'', js ''y'']"
  then show "\<exists>st'. handleMoveDown rx 0 st = Inr st' \<and> patterns st' = [js ''y'', js ''x''] \<and>
         notified st' = notified st @ [[js ''y'', js ''x'']] \<and>
         editingIndex st' = editingIndex st"
    by (simp add: handleMoveDown_def updatePatterns_fields swapCells_def)
qed

theorem handleMove_guarded_witness:
  "handleMoveUp RegExp_fragment 0
     \<lparr>patterns = [js ''x'', js ''y''], editingIndex = None, editingValue = [],
      errors = Map.empty, notified = []\<rparr> =
   Inr \<lparr>patterns = [js ''x'', js ''y''], editingIndex = None, editingValue = [],
        errors = Map.empty, notified = []\<rparr> \<and>
   handleMoveDown RegExp_fragment 1
     \<lparr>patterns = [js ''x'', js ''y''], editingIndex = None, editingValue = [],
      errors = Map.empty, notified = []\<rparr> =
   Inr \<lparr>patterns = [js ''x'', js ''y''], editingIndex = None, editingValue = [],
        errors = Map.empty, notified = []\<rparr> \<and>
   (\<exists>st'. handleMoveDown RegExp_fragment 0
        \<lparr>patterns = [js ''x'', js ''y''], editingIndex = None, editingValue = [],
         errors = Map.empty, notified = []\<rparr> = Inr st' \<and>
      patterns st' = [js ''y'', js ''x''] \<and> notified st' = [[js ''y'', js ''x'']]) \<and>
   (\<exists>st'. handleMoveUp RegExp_fragment 1
        \<lparr>patterns = [js ''x'', js ''y''], editingIndex = None, editingValue = [],
         errors = Map.empty, notified = []\<rparr> = Inr st' \<and>
      patterns st' ! 0 = js ''y'' \<and> patterns st' ! 1 = js ''x'' \<and>
      notified st' = [patterns st'])"
  using
    handleMove_guarded [of RegExp_fragment
      "\<lparr>patterns = [js ''x'', js ''y''], editingIndex = None, editingValue = [],
        errors = Map.empty, notified = []\<rparr>" 1]
    handleMove_guarded [of RegExp_fragment
      "\<lparr>patterns = [js ''x'', js ''y''], editingIndex = None, editingValue = [],
        errors = Map.empty, notified = []\<rparr>" 0]
  by auto

subsection \<open>C9: matching a sequence to a preset name\<close>

text \<open>
  C9. \<open>getMatchingPresetName\<close> returns \<open>null\<close> for every sequence whose length is not
  one. For a one-element sequence it returns the name of the first entry of the presets
  whose pattern equals the element, and \<open>null\<close> when no entry does. With the presets
  \<open>{"HD": "1080p.*"}\<close>, \<open>["1080p.*", "720p.*"]\<close> gives \<open>null\<close> and \<open>["1080p.*"]\<close>
  gives \<open>"HD"\<close>.
\<close>

theorem getMatchingPresetName_single:
  "(length ps \<noteq> 1 \<longrightarrow> getMatchingPresetName ps presets = None) \<and>
   (getMatchingPresetName [x] presets = Some name \<longleftrightarrow>
      (\<exists>pre post. presets = pre @ (name, x) # post \<and> (\<forall>e\<in>set pre. snd e \<noteq> x))) \<and>
   (getMatchingPresetName [x] presets = None \<longleftrightarrow> (\<forall>e\<in>set presets. snd e \<noteq> x)) \<and>
   getMatchingPresetName [js ''1080p.*'', js ''720p.*''] [(js ''HD'', js ''1080p.*'')] = None \<and>
   getMatchingPresetName [js ''1080p.*''] [(js ''HD'', js ''1080p.*'')] = Some (js ''HD'')"
  by (simp add: getMatchingPresetName_def findMatchingPreset_first findMatchingPreset_None)

theorem getMatchingPresetName_single_witness:
  "getMatchingPresetName [js ''720p.*''] [(js ''HD'', js ''1080p.*''), (js ''SD'', js ''720p.*''), (js ''Low'', js ''720p.*'')]
     = Some (js ''SD'') \<and>
   length [js ''a'', js ''b''] \<noteq> 1 \<and>
   getMatchingPresetName [js ''a'', js ''b''] [(js ''A'', js ''a'')] = None"
proof -
  have "[(js ''HD'', js ''1080p.*''), (js ''SD'', js ''720p.*''), (js ''Low'', js ''720p.*'')] =
          [(js ''HD'', js ''1080p.*'')] @ (js ''SD'', js ''720p.*'') # [(js ''Low'', js ''720p.*'')] \<and>
        (\<forall>e\<in>set [(js ''HD'', js ''1080p.*'')]. snd e \<noteq> js ''720p.*'')"
    by (simp add: js_def)
  then have "\<exists>pre post. [(js ''HD'', js ''1080p.*''), (js ''SD'', js ''720p.*''), (js ''Low'', js ''720p.*'')] =
          pre @ (js ''SD'', js ''720p.*'') # post \<and> (\<forall>e\<in>set pre. snd e \<noteq> js ''720p.*'')"
    by blast
  moreover have "length [js ''a'', js ''b''] \<noteq> 1"
    by simp
  ultimately show ?thesis
    using getMatchingPresetName_single [of "[js ''a'', js ''b'']" "[(js ''A'', js ''a'')]"]
      getMatchingPresetName_single [of "[]" "[(js ''HD'', js ''1080p.*''), (js ''SD'', js ''720p.*''), (js ''Low'', js ''720p.*'')]" "js ''720p.*''" "js ''SD''"]
    by blast
qed

subsection \<open>C10: the error 'Invalid JSON format' is never returned\<close>

text \<open>
  C10. No result of \<open>parseRegexValue\<close> carries the error 'Invalid JSON format': whenever
  \<open>detectRegexFormat\<close> classifies the trimmed text as 'array', \<open>JSON.parse\<close> of that same
  text succeeds, so the \<open>catch\<close> branch of \<open>parseRegexValue\<close> is not reachable.
\<close>

theorem parseRegexValue_never_invalid_JSON:
  "(\<forall>r. parseRegexValue rx v = Inr r \<longrightarrow> error r \<noteq> Some (js ''Invalid JSON format'')) \<and>
   (\<forall>s. detectRegexFormat (Str (trim s)) = Inr array_format \<longrightarrow>
        (\<exists>xs. JSON_parse (trim s) = Inr (JArray xs)))"
proof -
  have ne: "js ''Array contains non-string values'' \<noteq> js ''Invalid JSON format''"
    by (simp add: js_def)
  have "error r \<noteq> Some (js ''Invalid JSON format'')" if "parseRegexValue rx v = Inr r" for r
  proof (cases v)
    case Undefined
    with that show ?thesis by (auto simp: parseRegexValue_absent)
  next
    case Null
    with that show ?thesis by (auto simp: parseRegexValue_absent)
  next
    case (Str s)
    with that ne show ?thesis
      by (auto simp: parseRegexValue_Str split: if_splits)
  qed
  moreover have "\<exists>xs. JSON_parse (trim s) = Inr (JArray xs)"
    if "detectRegexFormat (Str (trim s)) = Inr array_format" for s
    using that by (auto simp: detectRegexFormat_Str trim_idem split: if_splits)
  ultimately show ?thesis by blast
qed

theorem parseRegexValue_never_invalid_JSON_witness:
  "parseRegexValue RegExp_fragment (Str (js ''[1,2]'')) =
     Inr \<lparr>format = array_format, array = [], raw = js ''[1,2]'', isValid = False,
          error = Some (js ''Array contains non-string values'')\<rparr> \<and>
   Some (js ''Array contains non-string values'') \<noteq> Some (js ''Invalid JSON format'') \<and>
   detectRegexFormat (Str (trim (js ''[1,2]''))) = Inr array_format \<and>
   (\<exists>xs. JSON_parse (trim (js ''[1,2]'')) = Inr (JArray xs))"
  using parseRegexValue_never_invalid_JSON [of RegExp_fragment "Str (js ''[1,2]'')"]
    parseRegexValue_sample [of RegExp_fragment] detectRegexFormat_sample
  by auto

end
